theory Spec2Isabelle
  imports Complex_Main
begin

section \<open>The infinite canvas of viewers-website: pan and zoom state\<close>

text \<open>
  This theory embeds the viewport logic of \<^verbatim>\<open>src/components/canva.tsx\<close> (the
  \<^verbatim>\<open>InfiniteCanvas\<close> component with zoom support, lines 1 to 310 of the file): the
  grid constants, the React state of the component and every event handler that
  writes the pan offset or the zoom level. The file also holds an earlier variant
  of the component that has no zoom; its grid function and its mouse handlers are
  the same.

  Conventions of the embedding.
  \<^item> A JavaScript \<^verbatim>\<open>number\<close> held in the component state is a \<open>jsnum\<close>: a finite
    value, one of the two infinities, or NaN. The special values follow IEEE 754,
    so that a division by zero yields what the browser yields. There is no
    negative zero; the only zero divisor a handler can meet is a
    \<^verbatim>\<open>Math.hypot\<close> result, which is \<open>+0\<close>.
  \<^item> Rounding. \<open>fl\<close> rounds a real number to the nearest IEEE double, ties to the
    even significand; its exponent range is unbounded, so overflow and subnormal
    numbers are left out. The grid mapping, the wheel handler and the mouse drag
    handlers round every operation with it, and their decimal literals, as the
    browser does. The keyboard and touch handlers compute with exact reals: what
    is stated about them is either the code's own expression or an evaluation at
    inputs where every intermediate value is a double.
  \<^item> Numbers read from a DOM event (\<^verbatim>\<open>clientX\<close>, \<^verbatim>\<open>deltaY\<close>,
    \<^verbatim>\<open>innerWidth\<close>, the bounding rectangle) are finite, hence \<open>real\<close>.
  \<^item> Each handler is a function from the state before the event to the state after
    it: the handler reads the state of the latest render and every \<^verbatim>\<open>setX\<close>
    call of one handler is committed together.
\<close>

subsection \<open>JavaScript numbers\<close>

datatype jsnum = Fin real | PInf | NInf | NaN

fun js_neg :: "jsnum \<Rightarrow> jsnum" where
  "js_neg (Fin a) = Fin (- a)"
| "js_neg PInf = NInf"
| "js_neg NInf = PInf"
| "js_neg NaN = NaN"

fun js_add :: "jsnum \<Rightarrow> jsnum \<Rightarrow> jsnum" where
  "js_add (Fin a) (Fin b) = Fin (a + b)"
| "js_add NaN _ = NaN"
| "js_add _ NaN = NaN"
| "js_add PInf NInf = NaN"
| "js_add NInf PInf = NaN"
| "js_add PInf _ = PInf"
| "js_add NInf _ = NInf"
| "js_add (Fin a) PInf = PInf"
| "js_add (Fin a) NInf = NInf"

definition js_sub :: "jsnum \<Rightarrow> jsnum \<Rightarrow> jsnum" where
  "js_sub a b = js_add a (js_neg b)"

text \<open>The sign of an infinity multiplied or divided by a finite number.\<close>

definition signed_inf :: "bool \<Rightarrow> jsnum" where
  "signed_inf positive = (if positive then PInf else NInf)"

fun js_mul :: "jsnum \<Rightarrow> jsnum \<Rightarrow> jsnum" where
  "js_mul (Fin a) (Fin b) = Fin (a * b)"
| "js_mul NaN _ = NaN"
| "js_mul _ NaN = NaN"
| "js_mul PInf PInf = PInf"
| "js_mul PInf NInf = NInf"
| "js_mul NInf PInf = NInf"
| "js_mul NInf NInf = PInf"
| "js_mul PInf (Fin b) = (if b = 0 then NaN else signed_inf (0 < b))"
| "js_mul NInf (Fin b) = (if b = 0 then NaN else signed_inf (b < 0))"
| "js_mul (Fin a) PInf = (if a = 0 then NaN else signed_inf (0 < a))"
| "js_mul (Fin a) NInf = (if a = 0 then NaN else signed_inf (a < 0))"

text \<open>
  Division: \<open>x / 0\<close> is an infinity of the sign of \<open>x\<close> for \<open>x \<noteq> 0\<close> and NaN for
  \<open>0 / 0\<close>; it never raises.
\<close>

fun js_div :: "jsnum \<Rightarrow> jsnum \<Rightarrow> jsnum" where
  "js_div (Fin a) (Fin b) =
     (if b = 0 then (if a = 0 then NaN else signed_inf (0 < a)) else Fin (a / b))"
| "js_div NaN _ = NaN"
| "js_div _ NaN = NaN"
| "js_div (Fin a) PInf = Fin 0"
| "js_div (Fin a) NInf = Fin 0"
| "js_div PInf (Fin b) = signed_inf (0 \<le> b)"
| "js_div NInf (Fin b) = signed_inf (b < 0)"
| "js_div PInf _ = NaN"
| "js_div NInf _ = NaN"

text \<open>\<^verbatim>\<open>Math.min\<close> and \<^verbatim>\<open>Math.max\<close> return NaN as soon as one argument is NaN.\<close>

fun Math_min :: "jsnum \<Rightarrow> jsnum \<Rightarrow> jsnum" where
  "Math_min (Fin a) (Fin b) = Fin (min a b)"
| "Math_min NaN _ = NaN"
| "Math_min _ NaN = NaN"
| "Math_min NInf _ = NInf"
| "Math_min _ NInf = NInf"
| "Math_min PInf b = b"
| "Math_min a PInf = a"

fun Math_max :: "jsnum \<Rightarrow> jsnum \<Rightarrow> jsnum" where
  "Math_max (Fin a) (Fin b) = Fin (max a b)"
| "Math_max NaN _ = NaN"
| "Math_max _ NaN = NaN"
| "Math_max PInf _ = PInf"
| "Math_max _ PInf = PInf"
| "Math_max NInf b = b"
| "Math_max a NInf = a"

text \<open>\<^verbatim>\<open>a !== b\<close> on numbers: NaN differs from everything, itself included.\<close>

fun strict_neq :: "jsnum \<Rightarrow> jsnum \<Rightarrow> bool" where
  "strict_neq NaN _ = True"
| "strict_neq _ NaN = True"
| "strict_neq a b = (a \<noteq> b)"

text \<open>\<^verbatim>\<open>Math.hypot\<close> of two finite numbers.\<close>

definition Math_hypot :: "real \<Rightarrow> real \<Rightarrow> real" where
  "Math_hypot a b = sqrt (a * a + b * b)"

text \<open>
  Rounding to the nearest double. A double other than zero is \<open>m * 2 ^ (e - 52)\<close>
  with an integer \<open>m\<close>, \<open>2 ^ 52 \<le> |m| < 2 ^ 53\<close>, where \<open>e\<close> is the binary exponent
  of the number; \<open>round_even\<close> picks the nearest integer and, half way between
  two, the even one.
\<close>

definition round_even :: "real \<Rightarrow> int" where
  "round_even y =
     (let f = \<lfloor>y\<rfloor>
      in if y - of_int f < 1 / 2 then f
         else if 1 / 2 < y - of_int f then f + 1
         else if even f then f else f + 1)"

definition fl :: "real \<Rightarrow> real" where
  "fl x =
     (if x = 0 then 0
      else let e = \<lfloor>log 2 \<bar>x\<bar>\<rfloor>; u = 2 powr (of_int e - 52)
           in u * of_int (round_even (x / u)))"

fun js_round :: "jsnum \<Rightarrow> jsnum" where
  "js_round (Fin a) = Fin (fl a)"
| "js_round PInf = PInf"
| "js_round NInf = NInf"
| "js_round NaN = NaN"

subsection \<open>Configuration constants\<close>

definition GRID_cellSize :: real where "GRID_cellSize = 400"
definition GRID_centerX :: real where "GRID_centerX = 5000"
definition GRID_centerY :: real where "GRID_centerY = 5000"

definition ZOOM_min :: real where "ZOOM_min = 0.2"
definition ZOOM_max :: real where "ZOOM_max = 2.0"
definition ZOOM_step :: real where "ZOOM_step = 0.1"
definition ZOOM_default :: real where "ZOOM_default = 1.0"

subsection \<open>Grid coordinates\<close>

text \<open>
  \<^verbatim>\<open>gridToPixel\<close> takes the two grid coordinates and nothing else: it has no access
  to the component state. The product and the sum are each rounded to a double.
\<close>

definition gridToPixel :: "real \<Rightarrow> real \<Rightarrow> real \<times> real" where
  "gridToPixel gridX gridY =
     (fl (GRID_centerX + fl (gridX * GRID_cellSize)),
      fl (GRID_centerY + fl (gridY * GRID_cellSize)))"

text \<open>
  The inverse arithmetic as the specification words it,
  \<open>((x - centerX) / cellSize, (y - centerY) / cellSize)\<close>, in the same double
  arithmetic; the source has no such function.
\<close>

definition surfaceToGrid_spec :: "real \<times> real \<Rightarrow> real \<times> real" where
  "surfaceToGrid_spec p =
     (fl (fl (fst p - GRID_centerX) / GRID_cellSize),
      fl (fl (snd p - GRID_centerY) / GRID_cellSize))"

subsection \<open>Component state\<close>

type_synonym point = "jsnum \<times> jsnum"

record canvas =
  position :: point
  zoomLevel :: jsnum
  isDragging :: bool
  startPos :: point
  lastDistance :: "jsnum option"
  showTip :: bool
  showDebug :: bool
  showZoomControls :: bool

text \<open>The \<^verbatim>\<open>useState\<close> defaults.\<close>

definition initial_canvas :: canvas where
  "initial_canvas =
     \<lparr> position = (Fin 0, Fin 0), zoomLevel = Fin ZOOM_default, isDragging = False,
       startPos = (Fin 0, Fin 0), lastDistance = None, showTip = True,
       showDebug = False, showZoomControls = False \<rparr>"

text \<open>
  What the handlers read of \<^verbatim>\<open>window\<close>, and the centering expression that the
  mount effect and the key handler both write out.
\<close>

record window =
  innerWidth :: real
  innerHeight :: real
  debugParam :: bool

definition centered :: "window \<Rightarrow> point" where
  "centered w =
     (Fin (innerWidth w / 2 - GRID_centerX), Fin (innerHeight w / 2 - GRID_centerY))"

text \<open>
  The mount effect. \<open>None\<close> stands for \<^verbatim>\<open>typeof window === "undefined"\<close>;
  \<open>debugParam\<close> for \<^verbatim>\<open>urlParams.get('debug') === 'true'\<close>.
\<close>

definition centerEffect :: "canvas \<Rightarrow> window option \<Rightarrow> canvas" where
  "centerEffect s win =
     (case win of
        None \<Rightarrow> s
      | Some w \<Rightarrow>
          let s1 = s\<lparr>position := centered w\<rparr>;
              s2 = (if debugParam w then s1\<lparr>showDebug := True\<rparr> else s1)
          in s2\<lparr>showZoomControls := (innerWidth w < 768)\<rparr>)"

subsection \<open>Keyboard shortcuts and zoom buttons\<close>

definition zoomIn :: "canvas \<Rightarrow> canvas" where
  "zoomIn s = s\<lparr>zoomLevel := Math_min (js_add (zoomLevel s) (Fin ZOOM_step)) (Fin ZOOM_max)\<rparr>"

definition zoomOut :: "canvas \<Rightarrow> canvas" where
  "zoomOut s = s\<lparr>zoomLevel := Math_max (js_sub (zoomLevel s) (Fin ZOOM_step)) (Fin ZOOM_min)\<rparr>"

definition resetZoom :: "canvas \<Rightarrow> canvas" where
  "resetZoom s = s\<lparr>zoomLevel := Fin ZOOM_default\<rparr>"

text \<open>
  \<^verbatim>\<open>handleKeyDown\<close> is a sequence of independent \<^verbatim>\<open>if\<close> statements on
  \<^verbatim>\<open>e.key\<close>; the zoom keys use the same updater functions as the buttons.
\<close>

definition handleKeyDown :: "canvas \<Rightarrow> string \<Rightarrow> window \<Rightarrow> canvas" where
  "handleKeyDown s key w =
     (let s1 = (if key = ''d'' \<or> key = ''D'' then s\<lparr>showDebug := \<not> showDebug s\<rparr> else s);
          s2 = (if key = ''c'' \<or> key = ''C'' then s1\<lparr>position := centered w\<rparr> else s1);
          s3 = (if key = ''r'' \<or> key = ''R'' then resetZoom s2 else s2);
          s4 = (if key = ''+'' \<or> key = ''='' then zoomIn s3 else s3)
      in if key = ''-'' \<or> key = ''_'' then zoomOut s4 else s4)"

subsection \<open>Wheel zoom\<close>

text \<open>
  \<open>rect\<close> is \<^verbatim>\<open>canvasRef.current?.getBoundingClientRect()\<close>, as the pair
  \<open>(rect.left, rect.top)\<close>, or \<open>None\<close> when the ref is not attached. Every
  operation is rounded to a double, and so are the literals \<^verbatim>\<open>0.01\<close>,
  \<^verbatim>\<open>ZOOM.min\<close>, \<^verbatim>\<open>ZOOM.max\<close> and \<^verbatim>\<open>ZOOM.step\<close>.
\<close>

definition handleWheel ::
  "canvas \<Rightarrow> bool \<Rightarrow> real \<Rightarrow> real \<Rightarrow> real \<Rightarrow> (real \<times> real) option \<Rightarrow> canvas" where
  "handleWheel s ctrlKey deltaY clientX clientY rect =
     (if \<not> ctrlKey then s
      else
        let delta = fl (deltaY * (- fl 0.01));
            newZoomLevel =
              Math_max (Fin (fl ZOOM_min))
                (Math_min (Fin (fl ZOOM_max))
                  (js_round (js_add (zoomLevel s) (Fin (fl (delta * fl ZOOM_step))))))
        in if strict_neq newZoomLevel (zoomLevel s) then
             (case rect of
                None \<Rightarrow> s
              | Some (rectLeft, rectTop) \<Rightarrow>
                  let mouseX = Fin (fl (clientX - rectLeft));
                      mouseY = Fin (fl (clientY - rectTop));
                      scaleFactor = js_round (js_div newZoomLevel (zoomLevel s));
                      newPosition =
                        (js_round (js_sub mouseX
                           (js_round (js_mul (js_round (js_sub mouseX (fst (position s))))
                              scaleFactor))),
                         js_round (js_sub mouseY
                           (js_round (js_mul (js_round (js_sub mouseY (snd (position s))))
                              scaleFactor))))
                  in s\<lparr>zoomLevel := newZoomLevel, position := newPosition\<rparr>)
           else s)"

subsection \<open>Mouse drag\<close>

text \<open>Each subtraction is rounded to a double.\<close>

definition handleMouseDown :: "canvas \<Rightarrow> real \<Rightarrow> real \<Rightarrow> canvas" where
  "handleMouseDown s clientX clientY =
     s\<lparr>isDragging := True,
       startPos := (js_round (js_sub (Fin clientX) (fst (position s))),
                    js_round (js_sub (Fin clientY) (snd (position s))))\<rparr>"

definition handleMouseMove :: "canvas \<Rightarrow> real \<Rightarrow> real \<Rightarrow> canvas" where
  "handleMouseMove s clientX clientY =
     (if \<not> isDragging s then s
      else s\<lparr>position := (js_round (js_sub (Fin clientX) (fst (startPos s))),
                            js_round (js_sub (Fin clientY) (snd (startPos s))))\<rparr>)"

definition handleMouseUp :: "canvas \<Rightarrow> canvas" where
  "handleMouseUp s = s\<lparr>isDragging := False\<rparr>"

subsection \<open>Touch: one-finger drag and two-finger pinch\<close>

text \<open>\<^verbatim>\<open>e.touches\<close> is the list of active contacts, each \<open>(clientX, clientY)\<close>.\<close>

type_synonym touch = "real \<times> real"

definition handleTouchStart :: "canvas \<Rightarrow> touch list \<Rightarrow> canvas" where
  "handleTouchStart s touches =
     (case touches of
        [touch1, touch2] \<Rightarrow>
          let initialDistance =
                Math_hypot (fst touch1 - fst touch2) (snd touch1 - snd touch2)
          in s\<lparr>lastDistance := Some (Fin initialDistance)\<rparr>
      | [touch1] \<Rightarrow>
          s\<lparr>isDragging := True,
            startPos := (js_sub (Fin (fst touch1)) (fst (position s)),
                         js_sub (Fin (snd touch1)) (snd (position s)))\<rparr>
      | _ \<Rightarrow> s)"

text \<open>
  \<open>rect\<close> is \<^verbatim>\<open>canvas.getBoundingClientRect()\<close> as \<open>(left, top)\<close>; the touch
  listeners exist only when the canvas element does. \<open>pinchUpdate\<close> is the body
  of the two-contact branch of \<^verbatim>\<open>handleTouchMove\<close>, with the stored distance as
  an argument.
\<close>

definition pinchUpdate :: "canvas \<Rightarrow> jsnum \<Rightarrow> touch \<Rightarrow> touch \<Rightarrow> real \<times> real \<Rightarrow> canvas" where
  "pinchUpdate s lastDist touch1 touch2 rect =
     (let currentDistance =
            Math_hypot (fst touch1 - fst touch2) (snd touch1 - snd touch2);
          ratio = js_div (Fin currentDistance) lastDist;
          newZoomLevel =
            Math_max (Fin ZOOM_min) (Math_min (Fin ZOOM_max) (js_mul (zoomLevel s) ratio));
          midX = (fst touch1 + fst touch2) / 2;
          midY = (snd touch1 + snd touch2) / 2;
          midpointX = Fin (midX - fst rect);
          midpointY = Fin (midY - snd rect);
          scaleFactor = js_div newZoomLevel (zoomLevel s);
          newPosition =
            (js_sub midpointX (js_mul (js_sub midpointX (fst (position s))) scaleFactor),
             js_sub midpointY (js_mul (js_sub midpointY (snd (position s))) scaleFactor))
      in s\<lparr>zoomLevel := newZoomLevel, position := newPosition,
           lastDistance := Some (Fin currentDistance)\<rparr>)"

definition handleTouchMove :: "canvas \<Rightarrow> touch list \<Rightarrow> real \<times> real \<Rightarrow> canvas" where
  "handleTouchMove s touches rect =
     (case (touches, lastDistance s) of
        ([touch1, touch2], Some lastDist) \<Rightarrow> pinchUpdate s lastDist touch1 touch2 rect
      | ([touch1], _) \<Rightarrow>
          if isDragging s then
            s\<lparr>position := (js_sub (Fin (fst touch1)) (fst (startPos s)),
                           js_sub (Fin (snd touch1)) (snd (startPos s)))\<rparr>
          else s
      | _ \<Rightarrow> s)"

text \<open>\<open>touches\<close> are the contacts that remain after the lift.\<close>

definition handleTouchEnd :: "canvas \<Rightarrow> touch list \<Rightarrow> canvas" where
  "handleTouchEnd s touches =
     (let s1 = (if length touches < 2 then s\<lparr>lastDistance := None\<rparr> else s)
      in if length touches = 0 then s1\<lparr>isDragging := False\<rparr> else s1)"

subsection \<open>Event sequences\<close>

datatype event =
    KeyDown string window
  | Wheel bool real real real "(real \<times> real) option"
  | MouseDown real real
  | MouseMove real real
  | MouseUp
  | TouchStart "touch list"
  | TouchMove "touch list" "real \<times> real"
  | TouchEnd "touch list"
  | ClickZoomIn
  | ClickZoomOut
  | ClickResetZoom

fun step :: "canvas \<Rightarrow> event \<Rightarrow> canvas" where
  "step s (KeyDown key w) = handleKeyDown s key w"
| "step s (Wheel ctrlKey deltaY clientX clientY rect) =
     handleWheel s ctrlKey deltaY clientX clientY rect"
| "step s (MouseDown clientX clientY) = handleMouseDown s clientX clientY"
| "step s (MouseMove clientX clientY) = handleMouseMove s clientX clientY"
| "step s MouseUp = handleMouseUp s"
| "step s (TouchStart touches) = handleTouchStart s touches"
| "step s (TouchMove touches rect) = handleTouchMove s touches rect"
| "step s (TouchEnd touches) = handleTouchEnd s touches"
| "step s ClickZoomIn = zoomIn s"
| "step s ClickZoomOut = zoomOut s"
| "step s ClickResetZoom = resetZoom s"

definition run :: "canvas \<Rightarrow> event list \<Rightarrow> canvas" where
  "run s evs = foldl step s evs"

text \<open>The zoom bounds, as the comparison \<^verbatim>\<open>ZOOM.min <= z && z <= ZOOM.max\<close>.\<close>

fun zoom_in_bounds :: "jsnum \<Rightarrow> bool" where
  "zoom_in_bounds (Fin z) = (ZOOM_min \<le> z \<and> z \<le> ZOOM_max)"
| "zoom_in_bounds _ = False"

subsection \<open>The pinch update as the specification words it\<close>


subsection \<open>Scenarios\<close>




text \<open>
  The component after its mount effect in a 1024 by 768 window, and the bounding
  rectangle of the canvas element, which is what \<^verbatim>\<open>canvasRef\<close> is attached to.
  The element is 10000 by 10000 pixels at the top-left corner of its container
  and carries the style \<^verbatim>\<open>translate(position.x, position.y) scale(zoomLevel)\<close>
  around its default origin, its centre: its left edge is at
  \<open>container.left + position.x + (1 - zoom) * 5000\<close>, and likewise its top edge.
\<close>

definition mounted :: canvas where
  "mounted =
     centerEffect initial_canvas
       (Some \<lparr>innerWidth = 1024, innerHeight = 768, debugParam = False\<rparr>)"

definition canvasRect :: "real \<times> real \<Rightarrow> real \<times> real \<Rightarrow> real \<Rightarrow> real \<times> real" where
  "canvasRect container offset zoom =
     (fst container + fst offset + (1 - zoom) * 5000,
      snd container + snd offset + (1 - zoom) * 5000)"

text \<open>
  The wheel scenario of the specification: from zoom \<open>1.0\<close> and offset \<open>(0, 0)\<close>, a
  wheel event with the modifier at \<open>(300, 200)\<close> whose delta yields zoom \<open>1.1\<close>.
\<close>

definition wheel_zoomed :: canvas where
  "wheel_zoomed = handleWheel initial_canvas True (- 100) 300 200 (Some (0, 0))"

text \<open>Two contacts that arrive at the same point.\<close>

definition coincident_start :: canvas where
  "coincident_start = handleTouchStart initial_canvas [(50, 50), (50, 50)]"

text \<open>
  One finger lands at \<open>(100, 100)\<close>, a second at \<open>(200, 100)\<close>, and the first is
  lifted; then the remaining finger reports a move without having moved.
\<close>

definition pinch_released :: canvas where
  "pinch_released =
     run initial_canvas
       [TouchStart [(100, 100)], TouchStart [(100, 100), (200, 100)], TouchEnd [(200, 100)]]"

subsection \<open>Pinch moves that divide zero by zero\<close>

text \<open>
  The one event whose zoom arithmetic yields NaN from a finite state: a pinch move
  with both the stored and the current distance zero.
\<close>

fun zero_over_zero :: "canvas \<Rightarrow> event \<Rightarrow> bool" where
  "zero_over_zero s (TouchMove [touch1, touch2] rect) =
     (lastDistance s = Some (Fin 0)
      \<and> Math_hypot (fst touch1 - fst touch2) (snd touch1 - snd touch2) = 0)"
| "zero_over_zero s _ = False"

fun guarded :: "canvas \<Rightarrow> event list \<Rightarrow> bool" where
  "guarded s [] = True"
| "guarded s (e # es) = (\<not> zero_over_zero s e \<and> guarded (step s e) es)"

section \<open>Rounding to doubles\<close>

lemma round_even_of_int: "round_even (of_int m) = m"
  by (simp add: round_even_def)

lemma fl_exponent:
  assumes "2 ^ k \<le> \<bar>x\<bar>" "\<bar>x\<bar> < 2 ^ Suc k"
  shows "x \<noteq> 0" "\<lfloor>log 2 \<bar>x\<bar>\<rfloor> = int k"
proof -
  have "(0::real) < 2 ^ k" by simp
  then have pos: "0 < \<bar>x\<bar>"
    using assms(1) by linarith
  then show "x \<noteq> 0" by simp
  have p1: "2 powr (of_int (int k)) = (2::real) ^ k"
    using powr_realpow [of 2 k] by simp
  have "2 powr (of_int (int k + 1)) = (2::real) powr (real (Suc k))"
    by (simp add: add.commute)
  also have "\<dots> = 2 ^ Suc k"
    by (rule powr_realpow) simp
  finally have p2: "2 powr (of_int (int k + 1)) = (2::real) ^ Suc k" .
  have "2 powr (of_int (int k)) \<le> \<bar>x\<bar> \<and> \<bar>x\<bar> < 2 powr (of_int (int k + 1))"
    unfolding p1 p2 using assms by simp
  then show "\<lfloor>log 2 \<bar>x\<bar>\<rfloor> = int k"
    using pos by (simp add: floor_log_eq_powr_iff)
qed

text \<open>The value of \<open>fl\<close> once the binary exponent \<open>k\<close> of the argument is known.\<close>

lemma fl_eval_ge:
  assumes "2 ^ k \<le> \<bar>x\<bar>" "\<bar>x\<bar> < 2 ^ Suc k" "52 \<le> k"
  shows "fl x = 2 ^ (k - 52) * of_int (round_even (x / 2 ^ (k - 52)))"
proof -
  have "2 powr (of_int (int k) - 52) = (2::real) ^ (k - 52)"
    using assms(3) powr_realpow [of 2 "k - 52"] by (simp add: of_nat_diff)
  then show ?thesis
    using fl_exponent [OF assms(1,2)] by (simp add: fl_def Let_def)
qed

lemma fl_eval_le:
  assumes "2 ^ k \<le> \<bar>x\<bar>" "\<bar>x\<bar> < 2 ^ Suc k" "k \<le> 52"
  shows "fl x = of_int (round_even (x * 2 ^ (52 - k))) / 2 ^ (52 - k)"
proof -
  have "of_int (int k) - (52::real) = - real (52 - k)"
    using assms(3) by (simp add: of_nat_diff)
  then have "2 powr (of_int (int k) - 52) = (2::real) powr (- real (52 - k))"
    by (simp only:)
  also have "\<dots> = inverse (2 powr real (52 - k))"
    by (rule powr_minus)
  also have "\<dots> = inverse (2 ^ (52 - k))"
    using powr_realpow [of 2 "52 - k"] by simp
  finally have u: "2 powr (of_int (int k) - 52) = inverse ((2::real) ^ (52 - k))" .
  have "fl x = inverse (2 ^ (52 - k)) * of_int (round_even (x / inverse (2 ^ (52 - k))))"
    using fl_exponent [OF assms(1,2)] by (simp only: fl_def Let_def u if_False)
  then show ?thesis
    by (simp add: divide_inverse mult.commute)
qed

text \<open>Integers below \<open>2 ^ 53\<close> in magnitude are doubles.\<close>

lemma fl_of_int:
  assumes "\<bar>n\<bar> < 2 ^ 53"
  shows "fl (of_int n) = of_int n"
proof (cases "n = 0")
  case True
  then show ?thesis by (simp add: fl_def)
next
  case False
  then have "1 \<le> nat \<bar>n\<bar>" by simp
  then obtain k where k: "2 ^ k \<le> nat \<bar>n\<bar>" "nat \<bar>n\<bar> < 2 ^ (k + 1)"
    using ex_power_ivl1 [of 2 "nat \<bar>n\<bar>"] by auto
  have "nat \<bar>n\<bar> < 2 ^ 53"
    using assms by (simp add: nat_less_iff)
  then have "(2::nat) ^ k < 2 ^ 53"
    using k(1) by (rule le_less_trans [rotated])
  then have "k < 53"
    using power_less_imp_less_exp [of 2 k 53] by (simp del: power_numeral)
  then have k52: "k \<le> 52"
    by simp
  have lo: "(2::real) ^ k \<le> \<bar>of_int n\<bar>"
  proof -
    have "real (2 ^ k) \<le> real (nat \<bar>n\<bar>)"
      using k(1) by (simp only: of_nat_le_iff)
    then show ?thesis by simp
  qed
  have hi: "\<bar>of_int n :: real\<bar> < 2 ^ Suc k"
  proof -
    have "real (nat \<bar>n\<bar>) < real (2 ^ (k + 1))"
      using k(2) by (simp only: of_nat_less_iff)
    then show ?thesis by simp
  qed
  have "of_int n * (2::real) ^ (52 - k) = of_int (n * 2 ^ (52 - k))"
    by simp
  then have "round_even (of_int n * 2 ^ (52 - k)) = n * 2 ^ (52 - k)"
    by (simp only: round_even_of_int)
  then show ?thesis
    using fl_eval_le [OF lo hi k52] by simp
qed

lemma fl_Ints:
  assumes "x \<in> \<int>" "\<bar>x\<bar> < 2 ^ 53"
  shows "fl x = x"
proof -
  obtain n where n: "x = of_int n"
    using assms(1) by (rule Ints_cases)
  have "\<bar>real_of_int n\<bar> < real_of_int (2 ^ 53)"
    using assms(2) n by simp
  then have "\<bar>n\<bar> < 2 ^ 53"
    by (simp only: of_int_abs [symmetric] of_int_less_iff)
  then show ?thesis
    using fl_of_int [of n] n by simp
qed

lemma fl_numeral: "numeral w < (2::int) ^ 53 \<Longrightarrow> fl (numeral w) = numeral w"
  using fl_of_int [of "numeral w"] by simp

lemma fl_neg_numeral: "numeral w < (2::int) ^ 53 \<Longrightarrow> fl (- numeral w) = - numeral w"
  using fl_of_int [of "- numeral w"] by simp

lemma fl_zero: "fl 0 = 0"
  by (simp add: fl_def)

lemma fl_one: "fl 1 = 1"
  using fl_of_int [of 1] by simp

text \<open>The same for a number below one, \<open>1 / 2 ^ k \<le> |x| < 2 / 2 ^ k\<close>.\<close>

lemma fl_eval_small:
  assumes "1 \<le> \<bar>x\<bar> * 2 ^ k" "\<bar>x\<bar> * 2 ^ k < 2"
  shows "fl x = of_int (round_even (x * 2 ^ (52 + k))) / 2 ^ (52 + k)"
proof -
  have pk: "(0::real) < 2 ^ k" by simp
  have pos: "0 < \<bar>x\<bar>"
  proof (rule ccontr)
    assume "\<not> 0 < \<bar>x\<bar>"
    then have "\<bar>x\<bar> * 2 ^ k = 0" by simp
    then show False using assms(1) by simp
  qed
  then have x0: "x \<noteq> 0" by simp
  have q: "(2::real) powr (- real k) = inverse (2 ^ k)"
  proof -
    have "(2::real) powr (- real k) = inverse (2 powr real k)" by (rule powr_minus)
    also have "\<dots> = inverse (2 ^ k)" using powr_realpow [of 2 k] by simp
    finally show ?thesis .
  qed
  have p1: "2 powr (of_int (- int k)) = inverse ((2::real) ^ k)"
    by (simp add: q)
  have "2 powr (of_int (- int k + 1)) = (2::real) powr (- real k + 1)"
    by simp
  also have "\<dots> = 2 powr (- real k) * 2 powr 1"
    by (rule powr_add)
  also have "\<dots> = 2 * inverse (2 ^ k)"
    by (simp add: q)
  finally have p2: "2 powr (of_int (- int k + 1)) = 2 * inverse ((2::real) ^ k)" .
  have lo: "inverse ((2::real) ^ k) \<le> \<bar>x\<bar>"
    using assms(1) pk by (simp add: field_simps)
  have hi: "\<bar>x\<bar> < 2 * inverse ((2::real) ^ k)"
    using assms(2) pk by (simp add: field_simps)
  have fl_exp: "\<lfloor>log 2 \<bar>x\<bar>\<rfloor> = - int k"
    using pos lo hi floor_log_eq_powr_iff [of "\<bar>x\<bar>" 2 "- int k"] by (simp only: p1 p2)
  have "of_int (- int k) - (52::real) = - real (52 + k)" by simp
  then have "2 powr (of_int (- int k) - 52) = (2::real) powr (- real (52 + k))"
    by (simp only:)
  also have "\<dots> = inverse (2 powr real (52 + k))" by (rule powr_minus)
  also have "\<dots> = inverse (2 ^ (52 + k))" using powr_realpow [of 2 "52 + k"] by simp
  finally have u: "2 powr (of_int (- int k) - 52) = inverse ((2::real) ^ (52 + k))" .
  have "fl x = inverse (2 ^ (52 + k)) * of_int (round_even (x / inverse (2 ^ (52 + k))))"
    using x0 by (simp only: fl_def Let_def fl_exp u if_False)
  then show ?thesis
    by (simp add: divide_inverse mult.commute)
qed

text \<open>The decimal literals of the source, as the doubles they denote.\<close>

lemma fl_0_01: "fl 0.01 = 5764607523034235 / 2 ^ 59"
  using fl_eval_small [of "0.01" 7] by (simp add: round_even_def)

lemma fl_ZOOM_step: "fl ZOOM_step = 3602879701896397 / 2 ^ 55"
  using fl_eval_small [of "0.1" 4] by (simp add: round_even_def ZOOM_step_def)

lemma fl_ZOOM_min: "fl ZOOM_min = 3602879701896397 / 2 ^ 54"
  using fl_eval_small [of "0.2" 3] by (simp add: round_even_def ZOOM_min_def)

lemma fl_ZOOM_max: "fl ZOOM_max = 2"
  using fl_of_int [of 2] by (simp add: ZOOM_max_def)

section \<open>Grid mapping\<close>

text \<open>
  The mapping is not exact for every integer. At \<open>gx = 180145328216341\<close> the sum
  \<open>5000 + gx * 400 = 72058131286541400\<close> lies half way between two doubles and
  rounds to \<open>72058131286541408\<close>, and the inverse arithmetic returns
  \<open>180145328216341.03125\<close>.
\<close>

theorem gridToPixel_rounds:
  "gridToPixel 180145328216341 0 = (72058131286541408, 5000)
   \<and> fst (gridToPixel 180145328216341 0) \<noteq> 5000 + 180145328216341 * 400
   \<and> surfaceToGrid_spec (gridToPixel 180145328216341 0) = (5764650502922913 / 32, 0)
   \<and> fst (surfaceToGrid_spec (gridToPixel 180145328216341 0)) \<noteq> 180145328216341"
proof -
  have a: "fl (180145328216341 * 400) = 72058131286536400"
    using fl_eval_ge [of 56 "180145328216341 * 400"] by (simp add: round_even_def)
  have b: "fl (5000 + 72058131286536400) = 72058131286541408"
    using fl_eval_ge [of 56 "5000 + 72058131286536400"] by (simp add: round_even_def)
  have c: "fl (72058131286541408 - 5000) = 72058131286536416"
    using fl_eval_ge [of 56 "72058131286541408 - 5000"] by (simp add: round_even_def)
  have d: "fl (72058131286536416 / 400) = 5764650502922913 / 32"
    using fl_eval_le [of 47 "72058131286536416 / 400"] by (simp add: round_even_def)
  have e: "fl 5000 = 5000" "fl 0 = 0"
    using fl_of_int [of 5000] fl_of_int [of 0] by simp_all
  have "gridToPixel 180145328216341 0 =
      (fl (5000 + fl (180145328216341 * 400)), fl (5000 + fl (0 * 400)))"
    by (simp only: gridToPixel_def GRID_cellSize_def GRID_centerX_def GRID_centerY_def)
  also have "\<dots> = (72058131286541408, 5000)"
    by (simp only: a b e mult_zero_left add_0_right)
  finally have g: "gridToPixel 180145328216341 0 = (72058131286541408, 5000)" .
  have "surfaceToGrid_spec (72058131286541408, 5000) =
      (fl (fl (72058131286541408 - 5000) / 400), fl (fl (5000 - 5000) / 400))"
    by (simp only: surfaceToGrid_spec_def GRID_cellSize_def GRID_centerX_def GRID_centerY_def
        fst_conv snd_conv)
  also have "\<dots> = (5764650502922913 / 32, 0)"
    by (simp only: c d e diff_self div_0)
  finally have h: "surfaceToGrid_spec (72058131286541408, 5000) = (5764650502922913 / 32, 0)" .
  show ?thesis
    unfolding g h by simp
qed

lemma gridToPixel_coordinate:
  fixes g :: int
  assumes "\<bar>g\<bar> \<le> 2 ^ 44"
  shows "fl (5000 + fl (of_int g * 400)) = 5000 + of_int g * 400"
    and "fl (fl (5000 + of_int g * 400 - 5000) / 400) = of_int g"
proof -
  have b1: "\<bar>g * 400\<bar> < 2 ^ 53" and b2: "\<bar>5000 + g * 400\<bar> < 2 ^ 53" and b3: "\<bar>g\<bar> < 2 ^ 53"
    using assms by (simp_all add: abs_if split: if_splits)
  have p: "fl (of_int g * 400) = of_int g * 400"
    using fl_of_int [OF b1] by simp
  have q: "fl (5000 + of_int g * 400) = 5000 + of_int g * 400"
    using fl_of_int [OF b2] by simp
  show "fl (5000 + fl (of_int g * 400)) = 5000 + of_int g * 400"
    by (simp only: p q)
  have "fl (fl (5000 + of_int g * 400 - 5000) / 400) = fl (fl (of_int g * 400) / 400)"
    by simp
  also have "\<dots> = fl (of_int g)"
    by (simp only: p) simp
  also have "\<dots> = of_int g"
    by (rule fl_of_int [OF b3])
  finally show "fl (fl (5000 + of_int g * 400 - 5000) / 400) = of_int g" .
qed

text \<open>
  Claim C8, amended. For every integer pair \<open>(gx, gy)\<close> with \<open>|gx|\<close> and \<open>|gy|\<close> at most
  \<open>2 ^ 44\<close>, \<^verbatim>\<open>gridToPixel\<close> returns exactly
  \<open>(centerX + gx * cellSize, centerY + gy * cellSize)\<close> with \<open>cellSize = 400\<close> and
  \<open>centerX = centerY = 5000\<close>, and the inverse arithmetic recovers \<open>(gx, gy)\<close>
  exactly; \<open>gridToPixel(1, -1) = (5400, 4600)\<close>. The function takes no viewport
  transform, so its value cannot depend on one.
\<close>

theorem gridToPixel_roundtrip:
  fixes gx gy :: int
  assumes "\<bar>gx\<bar> \<le> 2 ^ 44" "\<bar>gy\<bar> \<le> 2 ^ 44"
  shows "gridToPixel (of_int gx) (of_int gy) = (5000 + of_int gx * 400, 5000 + of_int gy * 400)
       \<and> surfaceToGrid_spec (gridToPixel (of_int gx) (of_int gy)) = (of_int gx, of_int gy)"
proof -
  have g: "gridToPixel (of_int gx) (of_int gy) =
      (5000 + of_int gx * 400, 5000 + of_int gy * 400)"
    using gridToPixel_coordinate(1) [OF assms(1)] gridToPixel_coordinate(1) [OF assms(2)]
    by (simp add: gridToPixel_def GRID_cellSize_def GRID_centerX_def GRID_centerY_def)
  have "surfaceToGrid_spec (5000 + of_int gx * 400, 5000 + of_int gy * 400) =
      (of_int gx, of_int gy)"
    using gridToPixel_coordinate(2) [OF assms(1)] gridToPixel_coordinate(2) [OF assms(2)]
    by (simp only: surfaceToGrid_spec_def GRID_cellSize_def GRID_centerX_def GRID_centerY_def
        fst_conv snd_conv)
  then show ?thesis
    using g by simp
qed

theorem gridToPixel_roundtrip_witness:
  "\<bar>1::int\<bar> \<le> 2 ^ 44 \<and> \<bar>- 1::int\<bar> \<le> 2 ^ 44
   \<and> gridToPixel 1 (- 1) = (5400, 4600)
   \<and> surfaceToGrid_spec (gridToPixel 1 (- 1)) = (1, - 1)"
proof -
  have b: "\<bar>1::int\<bar> \<le> 2 ^ 44" "\<bar>- 1::int\<bar> \<le> 2 ^ 44"
    by simp_all
  have g: "gridToPixel 1 (- 1) = (5400, 4600)"
    using gridToPixel_roundtrip [OF b, THEN conjunct1] by simp
  have "surfaceToGrid_spec (gridToPixel (of_int 1) (of_int (- 1))) = (of_int 1, of_int (- 1))"
    by (rule gridToPixel_roundtrip [OF b, THEN conjunct2])
  then have "surfaceToGrid_spec (gridToPixel 1 (- 1)) = (1, - 1)"
    by simp
  then show ?thesis
    using b g by blast
qed

section \<open>Initial centering and the re-center key\<close>

lemmas config_defs =
  GRID_cellSize_def GRID_centerX_def GRID_centerY_def
  ZOOM_min_def ZOOM_max_def ZOOM_step_def ZOOM_default_def

text \<open>
  Claim C9. Once the viewport size is known, the mount effect sets the offset to
  \<open>(viewportWidth / 2 - centerX, viewportHeight / 2 - centerY)\<close> and the zoom is
  the default \<open>1.0\<close>, so that the surface position of grid origin \<open>(0, 0)\<close>,
  translated by the offset, is the centre of the viewport; a 1024 by 768 viewport
  gives offset \<open>(-4488, -4616)\<close> and zoom \<open>1.0\<close>.
\<close>

theorem initial_centering:
  "position (centerEffect initial_canvas (Some w)) =
     (Fin (innerWidth w / 2 - GRID_centerX), Fin (innerHeight w / 2 - GRID_centerY))
   \<and> zoomLevel (centerEffect initial_canvas (Some w)) = Fin 1
   \<and> fst (gridToPixel 0 0) + (innerWidth w / 2 - GRID_centerX) = innerWidth w / 2
   \<and> snd (gridToPixel 0 0) + (innerHeight w / 2 - GRID_centerY) = innerHeight w / 2
   \<and> position (centerEffect initial_canvas
         (Some \<lparr>innerWidth = 1024, innerHeight = 768, debugParam = False\<rparr>)) =
       (Fin (- 4488), Fin (- 4616))
   \<and> zoomLevel (centerEffect initial_canvas
         (Some \<lparr>innerWidth = 1024, innerHeight = 768, debugParam = False\<rparr>)) = Fin 1"
proof -
  have "fl 5000 = 5000" "fl 0 = 0"
    using fl_of_int [of 5000] fl_of_int [of 0] by simp_all
  then have "gridToPixel 0 0 = (5000, 5000)"
    by (simp add: gridToPixel_def config_defs)
  then show ?thesis
    by (simp add: centerEffect_def centered_def initial_canvas_def config_defs Let_def)
qed

text \<open>
  Claim C10. The key \<^verbatim>\<open>c\<close> or \<^verbatim>\<open>C\<close> sets the offset to the centering formula
  of the current viewport size and changes nothing else; in particular the zoom
  after the command is the zoom before it.
\<close>

theorem recenter_keeps_zoom:
  assumes "key = ''c'' \<or> key = ''C''"
  shows "handleKeyDown s key w =
           s\<lparr>position :=
               (Fin (innerWidth w / 2 - GRID_centerX), Fin (innerHeight w / 2 - GRID_centerY))\<rparr>
       \<and> zoomLevel (handleKeyDown s key w) = zoomLevel s"
proof -
  have "handleKeyDown s ''c'' w = s\<lparr>position := centered w\<rparr>"
    by (simp add: handleKeyDown_def)
  moreover have "handleKeyDown s ''C'' w = s\<lparr>position := centered w\<rparr>"
    by (simp add: handleKeyDown_def)
  ultimately have "handleKeyDown s key w = s\<lparr>position := centered w\<rparr>"
    using assms by blast
  then show ?thesis
    by (simp add: centered_def)
qed

theorem recenter_keeps_zoom_witness:
  "zoomLevel (handleKeyDown (zoomIn initial_canvas) ''c''
      \<lparr>innerWidth = 1024, innerHeight = 768, debugParam = False\<rparr>) = Fin (11 / 10)
   \<and> position (handleKeyDown (zoomIn initial_canvas) ''c''
      \<lparr>innerWidth = 1024, innerHeight = 768, debugParam = False\<rparr>) = (Fin (- 4488), Fin (- 4616))"
  using recenter_keeps_zoom [of "''c''" "zoomIn initial_canvas"
      "\<lparr>innerWidth = 1024, innerHeight = 768, debugParam = False\<rparr>"]
  by (simp add: zoomIn_def initial_canvas_def config_defs)

section \<open>The wheel handler in double arithmetic\<close>

text \<open>
  What a wheel event with the modifier commits from a finite state, with every
  intermediate double named.
\<close>

lemma handleWheel_commit:
  assumes "zoomLevel s = Fin z0" "position s = (Fin ox, Fin oy)" "z0 \<noteq> 0"
      and "delta = fl (deltaY * (- fl 0.01))"
      and "zsum = fl (z0 + fl (delta * fl ZOOM_step))"
      and "z1 = max (fl ZOOM_min) (min (fl ZOOM_max) zsum)"
      and "z1 \<noteq> z0"
      and "sf = fl (z1 / z0)"
      and "px = fl (clientX - rectLeft)" "py = fl (clientY - rectTop)"
  shows "handleWheel s True deltaY clientX clientY (Some (rectLeft, rectTop)) =
           s\<lparr>zoomLevel := Fin z1,
             position := (Fin (fl (px - fl (fl (px - ox) * sf))),
                          Fin (fl (py - fl (fl (py - oy) * sf))))\<rparr>"
  using assms by (simp add: handleWheel_def Let_def js_sub_def)

text \<open>
  The wheel scenario of the specification in doubles: the zoom becomes the double
  \<open>1.1\<close> and the offset \<open>(-30, -20.00000000000003)\<close>, the second coordinate eight
  units in the last place below \<open>-20\<close>.
\<close>

lemma wheel_zoomed_state:
  "wheel_zoomed =
     initial_canvas\<lparr>zoomLevel := Fin (2476979795053773 / 2 ^ 51),
       position := (Fin (- 30), Fin (- (20 + 1 / 2 ^ 45)))\<rparr>"
proof -
  have z0: "zoomLevel initial_canvas = Fin 1" "position initial_canvas = (Fin 0, Fin 0)"
    by (simp_all add: initial_canvas_def ZOOM_default_def)
  have d: "1 = fl (- 100 * (- fl 0.01))"
    unfolding fl_0_01
    using fl_eval_le [of 0 "- 100 * (- (5764607523034235 / 2 ^ 59))"]
    by (simp add: round_even_def)
  have t: "fl (1 * fl ZOOM_step) = 3602879701896397 / 2 ^ 55"
    unfolding fl_ZOOM_step
    using fl_eval_small [of "1 * (3602879701896397 / 2 ^ 55)" 4]
    by (simp add: round_even_def)
  have "fl (1 + 3602879701896397 / 2 ^ 55) = 2476979795053773 / 2 ^ 51"
    using fl_eval_le [of 0 "1 + 3602879701896397 / 2 ^ 55"] by (simp add: round_even_def)
  then have zs: "2476979795053773 / 2 ^ 51 = fl (1 + fl (1 * fl ZOOM_step))"
    by (simp only: t)
  have z1: "2476979795053773 / 2 ^ 51 =
      max (fl ZOOM_min) (min (fl ZOOM_max) (2476979795053773 / 2 ^ 51))"
    by (simp add: fl_ZOOM_min fl_ZOOM_max)
  have ne: "2476979795053773 / 2 ^ 51 \<noteq> (1::real)"
    by simp
  have sf: "2476979795053773 / 2 ^ 51 = fl (2476979795053773 / 2 ^ 51 / 1)"
    using fl_eval_le [of 0 "2476979795053773 / 2 ^ 51 / 1"] by (simp add: round_even_def)
  have px: "300 = fl (300 - 0)" and py: "200 = fl (200 - 0)"
    by (simp_all add: fl_numeral)
  have x1: "fl (300 - 0) = 300" and y1: "fl (200 - 0) = 200"
    by (simp_all add: fl_numeral)
  have x2: "fl (300 * (2476979795053773 / 2 ^ 51)) = 330"
    using fl_eval_le [of 8 "300 * (2476979795053773 / 2 ^ 51)"] by (simp add: round_even_def)
  have x3: "fl (300 - 330) = - 30"
    by (simp add: fl_neg_numeral)
  have y2: "fl (200 * (2476979795053773 / 2 ^ 51)) = 7740561859543041 / 2 ^ 45"
    using fl_eval_le [of 7 "200 * (2476979795053773 / 2 ^ 51)"] by (simp add: round_even_def)
  have y3: "fl (200 - 7740561859543041 / 2 ^ 45) = - (20 + 1 / 2 ^ 45)"
    using fl_eval_le [of 4 "200 - 7740561859543041 / 2 ^ 45"] by (simp add: round_even_def)
  have "handleWheel initial_canvas True (- 100) 300 200 (Some (0, 0)) =
      initial_canvas\<lparr>zoomLevel := Fin (2476979795053773 / 2 ^ 51),
        position :=
          (Fin (fl (300 - fl (fl (300 - 0) * (2476979795053773 / 2 ^ 51)))),
           Fin (fl (200 - fl (fl (200 - 0) * (2476979795053773 / 2 ^ 51)))))\<rparr>"
    using z0 _ d zs z1 ne sf px py by (rule handleWheel_commit) simp
  then show ?thesis
    by (simp only: wheel_zoomed_def x1 x2 x3 y1 y2 y3)
qed

section \<open>Dragging\<close>

text \<open>Mouse moves leave the dragging flag, the anchor and the zoom as they are.\<close>

lemma handleMouseMove_frame:
  "isDragging (handleMouseMove s x y) = isDragging s
   \<and> startPos (handleMouseMove s x y) = startPos s
   \<and> zoomLevel (handleMouseMove s x y) = zoomLevel s"
  by (simp add: handleMouseMove_def)

lemma run_moves_frame:
  "isDragging (run s (map (\<lambda>p. MouseMove (fst p) (snd p)) moves)) = isDragging s
   \<and> startPos (run s (map (\<lambda>p. MouseMove (fst p) (snd p)) moves)) = startPos s
   \<and> zoomLevel (run s (map (\<lambda>p. MouseMove (fst p) (snd p)) moves)) = zoomLevel s"
proof (induction moves arbitrary: s)
  case Nil
  show ?case by (simp add: run_def)
next
  case (Cons m moves)
  have "run s (map (\<lambda>p. MouseMove (fst p) (snd p)) (m # moves)) =
        run (handleMouseMove s (fst m) (snd m)) (map (\<lambda>p. MouseMove (fst p) (snd p)) moves)"
    by (simp add: run_def)
  then show ?case
    using Cons.IH [of "handleMouseMove s (fst m) (snd m)"] handleMouseMove_frame [of s "fst m" "snd m"]
    by simp
qed

text \<open>
  The offset after a drag is not always \<open>ox + mx - ax\<close>. The wheel scenario of the
  specification leaves the offset \<open>(-30, -20.00000000000003)\<close>. A press at \<open>(0, 0)\<close>
  then stores the anchor \<open>(30, 20.00000000000003)\<close>, and the move to \<open>(0, 277)\<close>
  computes \<open>277 - 20.00000000000003\<close>, which lies half way between two doubles and
  rounds to \<open>257\<close>.
\<close>

theorem drag_not_exact:
  "position wheel_zoomed = (Fin (- 30), Fin (- (20 + 1 / 2 ^ 45)))
   \<and> position (run wheel_zoomed [MouseDown 0 0, MouseMove 0 277]) = (Fin (- 30), Fin 257)
   \<and> (257::real) \<noteq> - (20 + 1 / 2 ^ 45) + 277 - 0"
proof -
  have p: "position wheel_zoomed = (Fin (- 30), Fin (- (20 + 1 / 2 ^ 45)))"
    by (simp add: wheel_zoomed_state)
  have a: "fl (20 + 1 / 2 ^ 45) = 20 + 1 / 2 ^ 45"
    using fl_eval_le [of 4 "20 + 1 / 2 ^ 45"] by (simp add: round_even_def)
  have b: "fl (277 - (20 + 1 / 2 ^ 45)) = 257"
    using fl_eval_le [of 8 "277 - (20 + 1 / 2 ^ 45)"] by (simp add: round_even_def)
  have c: "fl 30 = 30" "fl (- 30) = - 30"
    by (simp_all add: fl_numeral fl_neg_numeral)
  have down: "startPos (handleMouseDown wheel_zoomed 0 0) = (Fin 30, Fin (20 + 1 / 2 ^ 45))"
    "isDragging (handleMouseDown wheel_zoomed 0 0)"
    using a c p by (simp_all add: handleMouseDown_def js_sub_def)
  have "position (handleMouseMove (handleMouseDown wheel_zoomed 0 0) 0 277) =
      (Fin (- 30), Fin 257)"
    using down b c by (simp add: handleMouseMove_def js_sub_def)
  then show ?thesis
    using p by (simp add: run_def)
qed

lemma drag_integers_exact:
  assumes "off \<in> \<int>" "a \<in> \<int>" "m \<in> \<int>"
    and "\<bar>off\<bar> \<le> 2 ^ 50" "\<bar>a\<bar> \<le> 2 ^ 50" "\<bar>m\<bar> \<le> 2 ^ 50"
  shows "fl (m - fl (a - off)) = off + m - a"
proof -
  have "a - off \<in> \<int>" "\<bar>a - off\<bar> < 2 ^ 53"
    using assms by (simp_all add: abs_if split: if_splits)
  then have anchor: "fl (a - off) = a - off"
    by (rule fl_Ints)
  have "m - (a - off) \<in> \<int>" "\<bar>m - (a - off)\<bar> < 2 ^ 53"
    using assms by (simp_all add: abs_if split: if_splits)
  then have "fl (m - (a - off)) = m - (a - off)"
    by (rule fl_Ints)
  then show ?thesis
    by (simp add: anchor)
qed

text \<open>
  Claim C6, amended. A drag opened by a press at \<open>(ax, ay)\<close> with the finite offset
  \<open>(ox, oy)\<close>: whatever moves were delivered in between, after the move to
  \<open>(mx, my)\<close> the offset is \<open>(fl (mx - fl (ax - ox)), fl (my - fl (ay - oy)))\<close>, each
  subtraction rounded to the nearest double, and the zoom is the one before the
  press. When the offset and the pointer coordinates are integers of magnitude at
  most \<open>2 ^ 50\<close> this is exactly \<open>(ox + mx - ax, oy + my - ay)\<close>; from \<open>(100, 100)\<close>
  to \<open>(140, 160)\<close> at offset \<open>(0, 0)\<close> it gives \<open>(40, 60)\<close>.
\<close>

theorem drag_rounded:
  assumes "position s = (Fin ox, Fin oy)"
  shows "position (run s (MouseDown ax ay # map (\<lambda>p. MouseMove (fst p) (snd p)) moves
                          @ [MouseMove mx my])) =
           (Fin (fl (mx - fl (ax - ox))), Fin (fl (my - fl (ay - oy))))
       \<and> zoomLevel (run s (MouseDown ax ay # map (\<lambda>p. MouseMove (fst p) (snd p)) moves
                          @ [MouseMove mx my])) = zoomLevel s
       \<and> (ox \<in> \<int> \<and> ax \<in> \<int> \<and> mx \<in> \<int> \<and> oy \<in> \<int> \<and> ay \<in> \<int> \<and> my \<in> \<int>
          \<and> \<bar>ox\<bar> \<le> 2 ^ 50 \<and> \<bar>ax\<bar> \<le> 2 ^ 50 \<and> \<bar>mx\<bar> \<le> 2 ^ 50
          \<and> \<bar>oy\<bar> \<le> 2 ^ 50 \<and> \<bar>ay\<bar> \<le> 2 ^ 50 \<and> \<bar>my\<bar> \<le> 2 ^ 50
          \<longrightarrow> position (run s (MouseDown ax ay # map (\<lambda>p. MouseMove (fst p) (snd p)) moves
                          @ [MouseMove mx my])) =
                (Fin (ox + mx - ax), Fin (oy + my - ay)))"
proof -
  let ?down = "handleMouseDown s ax ay"
  let ?mid = "run ?down (map (\<lambda>p. MouseMove (fst p) (snd p)) moves)"
  have split: "run s (MouseDown ax ay # map (\<lambda>p. MouseMove (fst p) (snd p)) moves
                  @ [MouseMove mx my]) = handleMouseMove ?mid mx my"
    by (simp add: run_def)
  have down: "isDragging ?down" "startPos ?down = (Fin (fl (ax - ox)), Fin (fl (ay - oy)))"
    "zoomLevel ?down = zoomLevel s"
    using assms by (simp_all add: handleMouseDown_def js_sub_def)
  have mid: "isDragging ?mid" "startPos ?mid = (Fin (fl (ax - ox)), Fin (fl (ay - oy)))"
    "zoomLevel ?mid = zoomLevel s"
    using run_moves_frame [of ?down moves] down by simp_all
  have pos: "position (handleMouseMove ?mid mx my) =
      (Fin (fl (mx - fl (ax - ox))), Fin (fl (my - fl (ay - oy))))"
    using mid by (simp add: handleMouseMove_def js_sub_def)
  have zoom: "zoomLevel (handleMouseMove ?mid mx my) = zoomLevel s"
    using mid by (simp add: handleMouseMove_def)
  show ?thesis
    unfolding split pos using zoom by (simp add: drag_integers_exact)
qed

theorem drag_rounded_witness:
  "position initial_canvas = (Fin 0, Fin 0)
   \<and> position (run initial_canvas
        [MouseDown 100 100, MouseMove 110 130, MouseMove 90 95, MouseMove 140 160]) =
       (Fin 40, Fin 60)
   \<and> zoomLevel (run initial_canvas
        [MouseDown 100 100, MouseMove 110 130, MouseMove 90 95, MouseMove 140 160]) = Fin 1"
proof -
  have h: "position initial_canvas = (Fin 0, Fin 0)"
    by (simp add: initial_canvas_def)
  note t = drag_rounded [OF h, of 100 100 "[(110, 130), (90, 95)]" 140 160]
  have "position (run initial_canvas
          (MouseDown 100 100 # map (\<lambda>p. MouseMove (fst p) (snd p)) [(110, 130), (90, 95)]
           @ [MouseMove 140 160])) = (Fin (0 + 140 - 100), Fin (0 + 160 - 100))"
    by (rule mp [OF t [THEN conjunct2, THEN conjunct2]]) simp
  then have p: "position (run initial_canvas
        [MouseDown 100 100, MouseMove 110 130, MouseMove 90 95, MouseMove 140 160]) =
       (Fin 40, Fin 60)"
    by simp
  have "zoomLevel (run initial_canvas
          (MouseDown 100 100 # map (\<lambda>p. MouseMove (fst p) (snd p)) [(110, 130), (90, 95)]
           @ [MouseMove 140 160])) = zoomLevel initial_canvas"
    by (rule t [THEN conjunct2, THEN conjunct1])
  then have z: "zoomLevel (run initial_canvas
        [MouseDown 100 100, MouseMove 110 130, MouseMove 90 95, MouseMove 140 160]) = Fin 1"
    by (simp add: initial_canvas_def config_defs)
  show ?thesis
    using h p z by blast
qed

section \<open>Wheel zoom and the point under the pointer\<close>

text \<open>
  Claim C2. The claim takes the pointer \<open>(px, py)\<close> relative to the top-left corner
  of the viewport and asks for \<open>(px - nx) / z1 = (px - ox) / z0\<close>, so that the point
  under the pointer stays there, as the comment in the handler announces. The
  handler subtracts the corner of the canvas element instead, and that element is
  the one moved by the offset. After the mount in a 1024 by 768 window, with the
  viewport corner at \<open>(0, 0)\<close>, the offset is \<open>(-4488, -4616)\<close>, the zoom is \<open>1\<close> and
  the rectangle of the canvas element is at \<open>(-4488, -4616)\<close>. A wheel event with
  the modifier at client position \<open>(300, 200)\<close> and \<open>deltaY = -2000\<close> is clamped to
  zoom \<open>2\<close> and commits the offset \<open>(-13764, -14048)\<close>; the claim's equation would
  need \<open>(-9276, -9432)\<close>.
\<close>

theorem wheel_wrong_frame:
  "position mounted = (Fin (- 4488), Fin (- 4616))
   \<and> zoomLevel mounted = Fin 1
   \<and> canvasRect (0, 0) (- 4488, - 4616) 1 = (- 4488, - 4616)
   \<and> handleWheel mounted True (- 2000) 300 200 (Some (canvasRect (0, 0) (- 4488, - 4616) 1)) =
       mounted\<lparr>zoomLevel := Fin 2, position := (Fin (- 13764), Fin (- 14048))\<rparr>
   \<and> (300 - (- 13764)) / 2 \<noteq> (300 - (- 4488)) / (1::real)
   \<and> (200 - (- 14048)) / 2 \<noteq> (200 - (- 4616)) / (1::real)"
proof -
  have m: "position mounted = (Fin (- 4488), Fin (- 4616))" "zoomLevel mounted = Fin 1"
    by (simp_all add: mounted_def centerEffect_def centered_def initial_canvas_def config_defs
        Let_def)
  have r: "canvasRect (0, 0) (- 4488, - 4616) 1 = (- 4488, - 4616)"
    by (simp add: canvasRect_def)
  have d: "20 = fl (- 2000 * (- fl 0.01))"
    unfolding fl_0_01
    using fl_eval_le [of 4 "- 2000 * (- (5764607523034235 / 2 ^ 59))"]
    by (simp add: round_even_def)
  have t: "fl (20 * fl ZOOM_step) = 2"
    unfolding fl_ZOOM_step
    using fl_eval_le [of 1 "20 * (3602879701896397 / 2 ^ 55)"]
    by (simp add: round_even_def)
  have "fl (1 + 2) = 3"
    by (simp add: fl_numeral)
  then have zs: "3 = fl (1 + fl (20 * fl ZOOM_step))"
    by (simp only: t)
  have z1: "2 = max (fl ZOOM_min) (min (fl ZOOM_max) 3)"
    by (simp add: fl_ZOOM_min fl_ZOOM_max)
  have ne: "(2::real) \<noteq> 1"
    by simp
  have sf: "2 = fl (2 / 1)"
    by (simp add: fl_numeral)
  have px: "4788 = fl (300 - (- 4488))" and py: "4816 = fl (200 - (- 4616))"
    by (simp_all add: fl_numeral)
  have "handleWheel mounted True (- 2000) 300 200 (Some (- 4488, - 4616)) =
      mounted\<lparr>zoomLevel := Fin 2,
        position := (Fin (fl (4788 - fl (fl (4788 - (- 4488)) * 2))),
                     Fin (fl (4816 - fl (fl (4816 - (- 4616)) * 2))))\<rparr>"
    using m(2) m(1) _ d zs z1 ne sf px py by (rule handleWheel_commit) simp
  then have w: "handleWheel mounted True (- 2000) 300 200 (Some (- 4488, - 4616)) =
       mounted\<lparr>zoomLevel := Fin 2, position := (Fin (- 13764), Fin (- 14048))\<rparr>"
    by (simp add: fl_numeral fl_neg_numeral)
  show ?thesis
    unfolding r using m w by simp
qed

section \<open>Pinch zoom\<close>

lemma Math_hypot_axis: "Math_hypot a 0 = \<bar>a\<bar>"
  by (simp add: Math_hypot_def)

lemma Math_hypot_nonneg: "0 \<le> Math_hypot a b"
  by (simp add: Math_hypot_def)

lemmas touch_defs =
  handleTouchStart_def handleTouchMove_def handleTouchEnd_def pinchUpdate_def




text \<open>
  Claim C4. The claim asks that a pinch move whose stored distance is zero changes
  nothing. The handler divides without a guard: from the state left by two
  contacts arriving at the same point (stored distance \<open>0\<close>, zoom \<open>1\<close>, offset
  \<open>(0, 0)\<close>), a move with the contacts still at one point computes \<open>0 / 0\<close> and
  stores NaN as zoom and as both offset coordinates, and a move with the contacts
  100 pixels apart computes \<open>100 / 0 = Infinity\<close> and jumps to the maximal zoom.
\<close>

theorem zero_anchor_distance_unguarded:
  "lastDistance coincident_start = Some (Fin 0)
   \<and> zoomLevel coincident_start = Fin 1 \<and> position coincident_start = (Fin 0, Fin 0)
   \<and> handleTouchMove coincident_start [(50, 50), (50, 50)] (0, 0) =
       coincident_start\<lparr>zoomLevel := NaN, position := (NaN, NaN), lastDistance := Some (Fin 0)\<rparr>
   \<and> handleTouchMove coincident_start [(0, 50), (100, 50)] (0, 0) =
       coincident_start\<lparr>zoomLevel := Fin 2, position := (Fin (- 50), Fin (- 50)),
         lastDistance := Some (Fin 100)\<rparr>"
  by (simp add: coincident_start_def touch_defs initial_canvas_def config_defs Math_hypot_axis
      Let_def js_sub_def signed_inf_def)

section \<open>The zoom bounds\<close>

text \<open>
  Claim C1. The claim asks that every zoom-affecting event leaves the zoom within
  \<open>[0.2, 2.0]\<close>. Every handler clamps, but the clamp does not catch NaN: from the
  initial state, whose zoom \<open>1.0\<close> is within the bounds, two contacts arriving at
  the same point followed by a pinch move with the contacts still at one point
  store NaN as the zoom, and NaN is within no bounds.
\<close>

theorem zoom_bound_broken:
  "zoom_in_bounds (zoomLevel initial_canvas)
   \<and> zoomLevel (run initial_canvas
        [TouchStart [(50, 50), (50, 50)], TouchMove [(50, 50), (50, 50)] (0, 0)]) = NaN
   \<and> \<not> zoom_in_bounds (zoomLevel (run initial_canvas
        [TouchStart [(50, 50), (50, 50)], TouchMove [(50, 50), (50, 50)] (0, 0)]))"
  by (simp add: run_def touch_defs initial_canvas_def config_defs Math_hypot_axis Let_def)

text \<open>
  Apart from that division of zero by zero the bounds are preserved by every event:
  the lemmas below show it handler by handler and then along any event sequence.
\<close>

lemma clamp_in_bounds:
  "v \<noteq> NaN \<Longrightarrow> zoom_in_bounds (Math_max (Fin ZOOM_min) (Math_min (Fin ZOOM_max) v))"
  by (cases v) (simp_all add: ZOOM_min_def ZOOM_max_def)

lemma zoomIn_bounds:
  "zoom_in_bounds (zoomLevel s) \<Longrightarrow> zoom_in_bounds (zoomLevel (zoomIn s))"
  by (cases "zoomLevel s") (simp_all add: zoomIn_def config_defs)

lemma zoomOut_bounds:
  "zoom_in_bounds (zoomLevel s) \<Longrightarrow> zoom_in_bounds (zoomLevel (zoomOut s))"
  by (cases "zoomLevel s") (simp_all add: zoomOut_def config_defs js_sub_def)

lemma resetZoom_bounds: "zoom_in_bounds (zoomLevel (resetZoom s))"
  by (simp add: resetZoom_def config_defs)

lemma handleKeyDown_bounds:
  assumes "zoom_in_bounds (zoomLevel s)"
  shows "zoom_in_bounds (zoomLevel (handleKeyDown s key w))
       \<and> lastDistance (handleKeyDown s key w) = lastDistance s"
proof -
  define s1 where "s1 = (if key = ''d'' \<or> key = ''D'' then s\<lparr>showDebug := \<not> showDebug s\<rparr> else s)"
  define s2 where "s2 = (if key = ''c'' \<or> key = ''C'' then s1\<lparr>position := centered w\<rparr> else s1)"
  define s3 where "s3 = (if key = ''r'' \<or> key = ''R'' then resetZoom s2 else s2)"
  define s4 where "s4 = (if key = ''+'' \<or> key = ''='' then zoomIn s3 else s3)"
  have r: "handleKeyDown s key w = (if key = ''-'' \<or> key = ''_'' then zoomOut s4 else s4)"
    unfolding handleKeyDown_def Let_def s1_def s2_def s3_def s4_def by (rule refl)
  have b1: "zoom_in_bounds (zoomLevel s1)" "lastDistance s1 = lastDistance s"
    using assms by (simp_all add: s1_def)
  have b2: "zoom_in_bounds (zoomLevel s2)" "lastDistance s2 = lastDistance s"
    using b1 by (simp_all add: s2_def)
  have b3: "zoom_in_bounds (zoomLevel s3)" "lastDistance s3 = lastDistance s"
    using b2 resetZoom_bounds by (simp_all add: s3_def resetZoom_def)
  have b4: "zoom_in_bounds (zoomLevel s4)" "lastDistance s4 = lastDistance s"
    using b3 zoomIn_bounds [of s3] by (simp_all add: s4_def zoomIn_def)
  show ?thesis
    unfolding r using b4 zoomOut_bounds [of s4] by (simp add: zoomOut_def)
qed

lemma clamp_doubles_in_bounds:
  "v \<noteq> NaN \<Longrightarrow>
     zoom_in_bounds (Math_max (Fin (fl ZOOM_min)) (Math_min (Fin (fl ZOOM_max)) v))"
proof -
  have a: "ZOOM_min \<le> fl ZOOM_min" "fl ZOOM_min \<le> ZOOM_max" "fl ZOOM_max = ZOOM_max"
    unfolding fl_ZOOM_min fl_ZOOM_max by (simp_all add: ZOOM_min_def ZOOM_max_def)
  assume "v \<noteq> NaN"
  then show ?thesis
    using a by (cases v) (auto simp add: max_def min_def)
qed

lemma handleWheel_bounds:
  assumes "zoom_in_bounds (zoomLevel s)"
  shows "zoom_in_bounds (zoomLevel (handleWheel s ctrlKey deltaY clientX clientY rect))
       \<and> lastDistance (handleWheel s ctrlKey deltaY clientX clientY rect) = lastDistance s"
proof -
  obtain z where z: "zoomLevel s = Fin z"
    using assms by (cases "zoomLevel s") simp_all
  have "zoom_in_bounds (Math_max (Fin (fl ZOOM_min))
          (Math_min (Fin (fl ZOOM_max))
            (js_round (js_add (zoomLevel s)
              (Fin (fl (fl (deltaY * (- fl 0.01)) * fl ZOOM_step)))))))"
    by (rule clamp_doubles_in_bounds) (simp add: z)
  then show ?thesis
    using assms by (simp add: handleWheel_def Let_def split: option.splits prod.splits)
qed

lemma pinch_ratio_defined:
  assumes "ld \<noteq> NaN" "\<not> (ld = Fin 0 \<and> c = 0)" "0 \<le> c"
  shows "js_div (Fin c) ld \<noteq> NaN"
  using assms by (cases ld) (auto simp add: signed_inf_def)

lemma zoom_times_ratio_defined:
  assumes "ZOOM_min \<le> z" "r \<noteq> NaN"
  shows "js_mul (Fin z) r \<noteq> NaN"
  using assms by (cases r) (auto simp add: signed_inf_def ZOOM_min_def)

lemma pinchUpdate_bounds:
  assumes "zoom_in_bounds (zoomLevel s)" "ld \<noteq> NaN"
    "\<not> (ld = Fin 0 \<and> Math_hypot (fst t1 - fst t2) (snd t1 - snd t2) = 0)"
  shows "zoom_in_bounds (zoomLevel (pinchUpdate s ld t1 t2 rect))"
proof -
  obtain z where z: "zoomLevel s = Fin z" "ZOOM_min \<le> z"
    using assms(1) by (cases "zoomLevel s") simp_all
  have "js_div (Fin (Math_hypot (fst t1 - fst t2) (snd t1 - snd t2))) ld \<noteq> NaN"
    using assms(2,3) Math_hypot_nonneg by (rule pinch_ratio_defined)
  then have "js_mul (zoomLevel s)
      (js_div (Fin (Math_hypot (fst t1 - fst t2) (snd t1 - snd t2))) ld) \<noteq> NaN"
    using z zoom_times_ratio_defined by simp
  then show ?thesis
    by (simp add: pinchUpdate_def Let_def clamp_in_bounds)
qed

lemma zoom_bounds_step:
  assumes "zoom_in_bounds (zoomLevel s)" "lastDistance s \<noteq> Some NaN" "\<not> zero_over_zero s e"
  shows "zoom_in_bounds (zoomLevel (step s e)) \<and> lastDistance (step s e) \<noteq> Some NaN"
proof (cases e)
  case (KeyDown key w)
  then show ?thesis
    using assms handleKeyDown_bounds [of s key w] by simp
next
  case (Wheel c d x y r)
  then show ?thesis
    using assms handleWheel_bounds [of s c d x y r] by simp
next
  case (TouchMove ts r)
  show ?thesis
  proof (cases "\<exists>t1 t2 ld. ts = [t1, t2] \<and> lastDistance s = Some ld")
    case True
    then obtain t1 t2 ld where p: "ts = [t1, t2]" "lastDistance s = Some ld"
      by blast
    have "zoom_in_bounds (zoomLevel (pinchUpdate s ld t1 t2 r))"
      using assms p TouchMove by (intro pinchUpdate_bounds) auto
    then show ?thesis
      using TouchMove p by (simp add: handleTouchMove_def pinchUpdate_def Let_def)
  next
    case False
    then show ?thesis
      using TouchMove assms
      by (auto simp add: handleTouchMove_def split: list.splits option.splits)
  qed
next
  case ClickZoomIn
  then show ?thesis
    using assms zoomIn_bounds [of s] by (simp add: zoomIn_def)
next
  case ClickZoomOut
  then show ?thesis
    using assms zoomOut_bounds [of s] by (simp add: zoomOut_def)
next
  case ClickResetZoom
  then show ?thesis
    using assms resetZoom_bounds [of s] by (simp add: resetZoom_def)
qed (use assms in \<open>auto simp add: handleMouseDown_def handleMouseMove_def handleMouseUp_def
      handleTouchStart_def handleTouchEnd_def Let_def split: list.splits\<close>)

lemma zoom_bounds_run:
  assumes "zoom_in_bounds (zoomLevel s)" "lastDistance s \<noteq> Some NaN" "guarded s es"
  shows "zoom_in_bounds (zoomLevel (run s es))"
  using assms
proof (induction es arbitrary: s)
  case Nil
  then show ?case by (simp add: run_def)
next
  case (Cons e es)
  have "zoom_in_bounds (zoomLevel (step s e)) \<and> lastDistance (step s e) \<noteq> Some NaN"
    using Cons.prems by (intro zoom_bounds_step) simp_all
  then have "zoom_in_bounds (zoomLevel (run (step s e) es))"
    using Cons.prems Cons.IH [of "step s e"] by simp
  then show ?case by (simp add: run_def)
qed

section \<open>Drag and pinch sessions\<close>

text \<open>
  The dragging flag and the stored pinch distance can be set together: a first
  contact opens the drag, and the second contact stores the distance without
  closing it.
\<close>

theorem sessions_can_overlap:
  "isDragging (run initial_canvas [TouchStart [(10, 10)], TouchStart [(10, 10), (110, 10)]])
   \<and> lastDistance (run initial_canvas [TouchStart [(10, 10)], TouchStart [(10, 10), (110, 10)]])
       = Some (Fin 100)"
  by (simp add: run_def touch_defs initial_canvas_def Math_hypot_axis)

text \<open>
  Claim C5, amended. When a second touch contact arrives, the handler stores the
  pinch distance and leaves the dragging flag and its anchor as they are, so a drag
  session and a pinch session can be open at the same instant. A touch move uses
  only one of them: with two contacts it neither reads nor writes the drag session,
  with one contact it neither reads nor writes the stored pinch distance. Both are
  closed once every contact is lifted, whatever events came before.
\<close>

theorem second_contact_keeps_drag:
  "isDragging (handleTouchStart s [a, b]) = isDragging s
   \<and> startPos (handleTouchStart s [a, b]) = startPos s
   \<and> lastDistance (handleTouchStart s [a, b]) \<noteq> None
   \<and> handleTouchMove (s\<lparr>isDragging := dragging, startPos := anchor\<rparr>) [a, b] rect =
       (handleTouchMove s [a, b] rect)\<lparr>isDragging := dragging, startPos := anchor\<rparr>
   \<and> handleTouchMove (s\<lparr>lastDistance := stored\<rparr>) [a] rect =
       (handleTouchMove s [a] rect)\<lparr>lastDistance := stored\<rparr>
   \<and> \<not> isDragging (run s (evs @ [TouchEnd []]))
   \<and> lastDistance (run s (evs @ [TouchEnd []])) = None"
proof -
  have start: "isDragging (handleTouchStart s [a, b]) = isDragging s
      \<and> startPos (handleTouchStart s [a, b]) = startPos s
      \<and> lastDistance (handleTouchStart s [a, b]) \<noteq> None"
    by (simp add: handleTouchStart_def Let_def)
  have two: "handleTouchMove (s\<lparr>isDragging := dragging, startPos := anchor\<rparr>) [a, b] rect =
      (handleTouchMove s [a, b] rect)\<lparr>isDragging := dragging, startPos := anchor\<rparr>"
    by (cases "lastDistance s") (simp_all add: handleTouchMove_def pinchUpdate_def Let_def)
  have one: "handleTouchMove (s\<lparr>lastDistance := stored\<rparr>) [a] rect =
      (handleTouchMove s [a] rect)\<lparr>lastDistance := stored\<rparr>"
    by (simp add: handleTouchMove_def)
  have lifted: "\<not> isDragging (run s (evs @ [TouchEnd []]))
      \<and> lastDistance (run s (evs @ [TouchEnd []])) = None"
    by (simp add: run_def handleTouchEnd_def Let_def)
  show ?thesis
    using start two one lifted by blast
qed

text \<open>
  Claim C7. The claim asks that, when the contact count drops from two to one and
  panning resumes, the drag is anchored afresh so that the next single-touch move
  causes no jump. The handler clears the pinch distance but keeps the dragging flag
  with the anchor of the first contact: after the first finger is lifted the offset
  is \<open>(0, 0)\<close>, and a move event of the remaining finger, which has not left
  \<open>(200, 100)\<close>, sets the offset to \<open>(100, 0)\<close>.
\<close>

theorem stale_anchor_after_pinch:
  "position pinch_released = (Fin 0, Fin 0)
   \<and> lastDistance pinch_released = None
   \<and> isDragging pinch_released
   \<and> startPos pinch_released = (Fin 100, Fin 100)
   \<and> position (handleTouchMove pinch_released [(200, 100)] (0, 0)) = (Fin 100, Fin 0)"
  by (simp add: pinch_released_def run_def touch_defs initial_canvas_def Math_hypot_axis
      Let_def js_sub_def)

end
